theory Spec2Isabelle
  imports Main "HOL-Library.AList"
begin

section \<open>JavaScript strings\<close>

text \<open>
  Strings are character lists. The characters of the model are the 8-bit characters of
  HOL; within that range the white space of JavaScript (what \<open>\s\<close> matches and what
  \<open>String.prototype.trim\<close> strips) is TAB, LF, VT, FF, CR, SPACE and NBSP, and the line
  terminators (what \<open>.\<close> refuses) are LF and CR.
\<close>

definition isWhiteSpace :: "char \<Rightarrow> bool" where
  "isWhiteSpace c \<longleftrightarrow>
     c \<in> set [CHR 0x09, CHR 0x0A, CHR 0x0B, CHR 0x0C, CHR 0x0D, CHR 0x20, CHR 0xA0]"

definition isLineTerminator :: "char \<Rightarrow> bool" where
  "isLineTerminator c \<longleftrightarrow> c \<in> set [CHR 0x0A, CHR 0x0D]"

definition trim :: "string \<Rightarrow> string" where
  "trim s = rev (dropWhile isWhiteSpace (rev (dropWhile isWhiteSpace s)))"

text \<open>\<open>Array.prototype.join\<close> on an array of strings.\<close>

fun join_with :: "string \<Rightarrow> string list \<Rightarrow> string" where
  "join_with sep [] = []"
| "join_with sep [x] = x"
| "join_with sep (x # y # ys) = x @ sep @ join_with sep (y # ys)"

fun startsWith :: "string \<Rightarrow> string \<Rightarrow> bool" where
  "startsWith s [] = True"
| "startsWith [] (p # ps) = False"
| "startsWith (c # cs) (p # ps) = (c = p \<and> startsWith cs ps)"

section \<open>Regular expressions\<close>

text \<open>
  The three regular expressions of \<open>validateSslCert\<close> are sequences of literals,
  greedy repetitions of one character class, and one capture group. \<open>rx_match\<close> is
  the backtracking matcher at one position: a greedy repetition takes the longest run
  first and gives characters back one at a time. Its result is the text left at the
  opening and at the closing of the group and after the whole match.
\<close>

datatype cls = Dot | Space | NoneOf string

datatype item = Lit string | Star cls | Plus cls | Open | Close

fun in_cls :: "cls \<Rightarrow> char \<Rightarrow> bool" where
  "in_cls Dot c = (\<not> isLineTerminator c)"
| "in_cls Space c = isWhiteSpace c"
| "in_cls (NoneOf xs) c = (c \<notin> set xs)"

fun rx_match :: "item list \<Rightarrow> string \<Rightarrow> string \<Rightarrow> string \<Rightarrow> (string \<times> string \<times> string) option" where
  "rx_match [] s so sc = Some (so, sc, s)"
| "rx_match (Lit l # r) s so sc =
     (if startsWith s l then rx_match r (drop (length l) s) so sc else None)"
| "rx_match (Open # r) s so sc = rx_match r s s sc"
| "rx_match (Close # r) s so sc = rx_match r s so s"
| "rx_match (Plus c # r) [] so sc = None"
| "rx_match (Plus c # r) (x # xs) so sc =
     (if in_cls c x then rx_match (Star c # r) xs so sc else None)"
| "rx_match (Star c # r) [] so sc = rx_match r [] so sc"
| "rx_match (Star c # r) (x # xs) so sc =
     (if in_cls c x
      then (case rx_match (Star c # r) xs so sc of
              Some m \<Rightarrow> Some m
            | None \<Rightarrow> rx_match r (x # xs) so sc)
      else rx_match r (x # xs) so sc)"

text \<open>
  \<open>rx_exec\<close> is \<open>RegExp.prototype.exec\<close> from the start of \<open>s\<close>: the leftmost
  position with a match wins. It returns the index of the match, the text of capture
  group 1 and the index after the match.
\<close>

fun rx_exec_from :: "item list \<Rightarrow> nat \<Rightarrow> string \<Rightarrow> (nat \<times> string \<times> nat) option" where
  "rx_exec_from r i [] =
     (case rx_match r [] [] [] of
        None \<Rightarrow> None
      | Some (so, sc, rest) \<Rightarrow> Some (i, take (length so - length sc) so, i))"
| "rx_exec_from r i (x # xs) =
     (case rx_match r (x # xs) (x # xs) (x # xs) of
        None \<Rightarrow> rx_exec_from r (Suc i) xs
      | Some (so, sc, rest) \<Rightarrow>
          Some (i, take (length so - length sc) so, i + (Suc (length xs) - length rest)))"

definition rx_exec :: "item list \<Rightarrow> string \<Rightarrow> (nat \<times> string \<times> nat) option" where
  "rx_exec r s = rx_exec_from r 0 s"

text \<open>\<open>String.prototype.match\<close> with a regular expression without the \<open>g\<close> flag:
  capture group 1 of the first match, or nothing (\<open>null\<close>).\<close>

definition str_match :: "item list \<Rightarrow> string \<Rightarrow> string option" where
  "str_match r s = (case rx_exec r s of None \<Rightarrow> None | Some (i, cap, e) \<Rightarrow> Some cap)"

text \<open>
  \<open>String.prototype.matchAll\<close> with the \<open>g\<close> flag, reduced to capture group 1 of each
  match: the next search starts where the match ended, or one character after its start
  when the match is empty.
\<close>

function matchAll :: "item list \<Rightarrow> string \<Rightarrow> string list" where
  "matchAll r s =
     (case rx_exec r s of
        None \<Rightarrow> []
      | Some (i, cap, e) \<Rightarrow>
          cap # (if s = [] then [] else matchAll r (drop (max (Suc i) e) s)))"
  by pat_completeness auto
termination
  by (relation "measure (\<lambda>(r, s). length s)") auto

declare matchAll.simps [simp del]

text \<open>\<open>/notAfter=(.+)/\<close>\<close>

definition notAfterRegex :: "item list" where
  "notAfterRegex = [Lit ''notAfter='', Open, Plus Dot, Close]"

text \<open>\<open>/subject=.*CN\s*=\s*([^/,\n]+)/\<close>\<close>

definition cnRegex :: "item list" where
  "cnRegex = [Lit ''subject='', Star Dot, Lit ''CN'', Star Space, Lit ''='', Star Space,
              Open, Plus (NoneOf [CHR ''/'', CHR '','', CHR 0x0A]), Close]"

text \<open>\<open>/DNS:([^,\n]+)/g\<close>\<close>

definition dnsRegex :: "item list" where
  "dnsRegex = [Lit ''DNS:'', Open, Plus (NoneOf [CHR '','', CHR 0x0A]), Close]"

section \<open>Data model\<close>

text \<open>
  \<open>CertOptionsConfig\<close> is the optional-field object given to the \<open>CertOptions\<close>
  constructor; an absent field is \<open>None\<close>. \<open>x || d\<close> takes the default for an absent
  or empty string, \<open>x ?? d\<close> for an absent value only.
\<close>

record CertOptionsConfig =
  cfg_org :: "string option"
  cfg_countryName :: "string option"
  cfg_keyType :: "string option"
  cfg_keyCipher :: "string option"
  cfg_safeMode :: "bool option"

record CertOptions =
  org :: string
  countryName :: string
  keyType :: string
  keyCipher :: string
  safeMode :: bool

definition or_default :: "string option \<Rightarrow> string \<Rightarrow> string" where
  "or_default x d = (case x of None \<Rightarrow> d | Some v \<Rightarrow> if v = [] then d else v)"

definition new_CertOptions :: "CertOptionsConfig \<Rightarrow> CertOptions" where
  "new_CertOptions c =
     \<lparr> org = or_default (cfg_org c) ''Acme'',
       countryName = or_default (cfg_countryName c) ''US'',
       keyType = or_default (cfg_keyType c) ''rsa'',
       keyCipher = or_default (cfg_keyCipher c) ''aes256'',
       safeMode = (case cfg_safeMode c of None \<Rightarrow> True | Some v \<Rightarrow> v) \<rparr>"

text \<open>\<open>CertInfo\<close> of \<open>cert-info.js\<close>: the two paths and the optional password.\<close>

record CertInfo =
  certPath :: string
  keyPath :: string
  password :: "string option"

definition new_CertInfo :: "string \<Rightarrow> string \<Rightarrow> CertInfo" where
  "new_CertInfo cp kp = \<lparr> certPath = cp, keyPath = kp, password = None \<rparr>"

text \<open>
  The object literal \<open>sharedConfig\<close> of the constructor: six sections, each an ordered
  list of key/value pairs (JavaScript keeps the insertion order of string keys).
\<close>

type_synonym kvs = "(string \<times> string) list"

record SharedConfig =
  req :: kvs
  root_distinguished_name :: kvs
  req_distinguished_name :: kvs
  root_cert_extensions :: kvs
  cert_extensions :: kvs
  ssl_cert_extensions :: kvs

text \<open>Reading a property for a template literal: an absent property prints as
  \<open>undefined\<close>.\<close>

definition get_prop :: "kvs \<Rightarrow> string \<Rightarrow> string" where
  "get_prop sec k = (case map_of sec k of None \<Rightarrow> ''undefined'' | Some v \<Rightarrow> v)"

definition nameConstraints :: string where
  "nameConstraints = ''critical,permitted;DNS:.test''"

definition mk_sharedConfig :: "CertOptions \<Rightarrow> SharedConfig" where
  "mk_sharedConfig opts =
     \<lparr> req = [(''prompt'', ''no''), (''distinguished_name'', ''root_distinguished_name'')],
       root_distinguished_name =
         [(''organizationName'', org opts),
          (''commonName'', org opts @ '' Root Dev CA''),
          (''countryName'', countryName opts)],
       req_distinguished_name =
         [(''organizationName'', org opts),
          (''commonName'', org opts @ '' Intermediate Dev CA''),
          (''countryName'', countryName opts)],
       root_cert_extensions =
         [(''basicConstraints'', ''critical,CA:TRUE''),
          (''keyUsage'', ''critical,keyCertSign''),
          (''extendedKeyUsage'', ''serverAuth,clientAuth''),
          (''subjectKeyIdentifier'', ''hash''),
          (''subjectAltName'', ''dirName:root_distinguished_name'')],
       cert_extensions =
         [(''basicConstraints'', ''critical,CA:TRUE''),
          (''nameConstraints'', nameConstraints),
          (''keyUsage'', ''critical,keyCertSign''),
          (''extendedKeyUsage'', ''serverAuth,clientAuth''),
          (''subjectKeyIdentifier'', ''hash''),
          (''subjectAltName'', ''dirName:req_distinguished_name''),
          (''authorityKeyIdentifier'', ''keyid:always'')],
       ssl_cert_extensions =
         [(''basicConstraints'', ''critical,CA:FALSE''),
          (''keyUsage'', ''critical,digitalSignature,keyEncipherment''),
          (''extendedKeyUsage'', ''serverAuth,clientAuth''),
          (''subjectKeyIdentifier'', ''hash''),
          (''subjectAltName'', ''dirName:req_distinguished_name''),
          (''authorityKeyIdentifier'', ''keyid:always'')] \<rparr>"

text \<open>\<open>Object.getOwnPropertyNames(sharedConfig)\<close> with the value of each name.\<close>

definition sections_of :: "SharedConfig \<Rightarrow> (string \<times> kvs) list" where
  "sections_of c =
     [(''req'', req c),
      (''root_distinguished_name'', root_distinguished_name c),
      (''req_distinguished_name'', req_distinguished_name c),
      (''root_cert_extensions'', root_cert_extensions c),
      (''cert_extensions'', cert_extensions c),
      (''ssl_cert_extensions'', ssl_cert_extensions c)]"

text \<open>
  The instance fields of \<open>CertBuilder\<close>. A JavaScript \<open>null\<close> is \<open>None\<close>. The
  constructor's type check of \<open>rootCAKeyPath\<close> (a string or \<open>null\<close>) is the type
  \<open>string option\<close> here.
\<close>

record CertBuilder =
  options :: CertOptions
  certDir :: string
  sharedConfig :: SharedConfig
  rootCAInfo :: "CertInfo option"
  persistentRootCAKeyPath :: "string option"
  newCAs :: "string list"
  tempDir :: "string option"

definition new_CertBuilder :: "string \<Rightarrow> CertOptions \<Rightarrow> string option \<Rightarrow> CertBuilder" where
  "new_CertBuilder dir opts rootCAKeyPath =
     \<lparr> options = opts,
       certDir = dir,
       sharedConfig = mk_sharedConfig opts,
       rootCAInfo = None,
       persistentRootCAKeyPath = rootCAKeyPath,
       newCAs = [],
       tempDir = None \<rparr>"

text \<open>Truthiness of a nullable string: neither \<open>null\<close> nor empty.\<close>

definition truthy :: "string option \<Rightarrow> bool" where
  "truthy x = (case x of None \<Rightarrow> False | Some v \<Rightarrow> v \<noteq> [])"

section \<open>The world outside the builder\<close>

text \<open>
  The file system maps a path to a file with its text or to a directory. A finished
  engine process has an exit code (none when a signal ended it) and the text of its
  standard output; a process that could not be started has the error of the \<open>error\<close>
  event. Every engine invocation is recorded with its argument list, the text written to
  its standard input (if any) and how it ended; so are the number of temporary
  directories requested and the paths of the files the builder itself wrote.
\<close>

datatype node = File string | Dir

type_synonym files = "string \<rightharpoonup> node"

datatype error =
    Error string
  | CommandFailed string "string list" "nat option"
  | SystemError string

datatype proc = Closed "nat option" string | ErrorEvent error

datatype out = Log string | Warn string | Err string "error option" | Question string

record world =
  fs :: files
  spawned :: "(string list \<times> string option \<times> proc) list"
  console :: "out list"
  mkdtemps :: nat
  written :: "string list"

text \<open>
  What the code asks of its surroundings: the engine (a function of the number of earlier
  invocations, the arguments, the input text and the file system, giving the process
  outcome and the file system it leaves), the operator's answer to a question, the
  password prompt, the random bytes and characters, \<open>os.tmpdir()\<close>, \<open>path.join\<close>,
  the \<open>Date\<close> parser (\<open>None\<close> is the invalid date), the current time in milliseconds,
  \<open>Date.prototype.toUTCString\<close>, recursive removal (which may throw), and
  whether \<open>openssl version\<close> runs.
\<close>

record env =
  engine :: "nat \<Rightarrow> string list \<Rightarrow> string option \<Rightarrow> files \<Rightarrow> proc \<times> files"
  operator :: "string \<Rightarrow> string"
  passwordPrompt :: "string \<Rightarrow> string \<Rightarrow> error + string"
  randomBytesHex :: string
  randomChar :: "nat \<Rightarrow> nat \<Rightarrow> char"
  tmpdir :: string
  path_join :: "string \<Rightarrow> string \<Rightarrow> string"
  parseDate :: "string \<Rightarrow> int option"
  now :: int
  toUTCString :: "int option \<Rightarrow> string"
  rmSync :: "string \<Rightarrow> files \<Rightarrow> error + files"
  opensslVersionOk :: bool

text \<open>
  An asynchronous function returns, throws, or ends the process with \<open>process.exit\<close>.
\<close>

datatype 'a result = Return 'a | Throw error | Exit nat

definition andThen ::
  "('s \<Rightarrow> 'a result \<times> 's) \<Rightarrow> ('a \<Rightarrow> 's \<Rightarrow> 'b result \<times> 's) \<Rightarrow> 's \<Rightarrow> 'b result \<times> 's" where
  "andThen m f s =
     (case m s of
        (Return a, s') \<Rightarrow> f a s'
      | (Throw e, s') \<Rightarrow> (Throw e, s')
      | (Exit c, s') \<Rightarrow> (Exit c, s'))"

definition tryCatch ::
  "('s \<Rightarrow> 'a result \<times> 's) \<Rightarrow> (error \<Rightarrow> 's \<Rightarrow> 'a result \<times> 's) \<Rightarrow> 's \<Rightarrow> 'a result \<times> 's" where
  "tryCatch m h s =
     (case m s of
        (Throw e, s') \<Rightarrow> h e s'
      | r \<Rightarrow> r)"

definition print :: "out \<Rightarrow> world \<Rightarrow> world" where
  "print x w = w\<lparr>console := console w @ [x]\<rparr>"

text \<open>
  The console: \<open>console.log\<close>, \<open>console.warn\<close>, \<open>console.error\<close> (a message and,
  where the code prints one, the error object after it) and the questions put to the
  operator. The diagnostic output of verbose mode (\<open>#log\<close>, \<open>log\<close>), which no
  control flow depends on, is left out.
\<close>

section \<open>Process spawning and prompting\<close>

text \<open>
  \<open>spawnAsync\<close>: the promise resolves with the standard output when the process
  closes with code 0, and rejects with the command-failure error on any other code or
  with the error of the \<open>error\<close> event.
\<close>

definition spawnAsync ::
  "env \<Rightarrow> string \<Rightarrow> string list \<Rightarrow> string option \<Rightarrow> world \<Rightarrow> string result \<times> world" where
  "spawnAsync e command args input w =
     (case engine e (length (spawned w)) args input (fs w) of
        (p, fs') \<Rightarrow>
          (case p of
             Closed code stdout \<Rightarrow>
               (if code = Some 0 then Return stdout
                else Throw (CommandFailed command args code),
                w\<lparr>fs := fs', spawned := spawned w @ [(args, input, p)]\<rparr>)
           | ErrorEvent err \<Rightarrow>
               (Throw err, w\<lparr>fs := fs', spawned := spawned w @ [(args, input, p)]\<rparr>)))"

definition toLowerChar :: "char \<Rightarrow> char" where
  "toLowerChar c =
     (let n = (of_char c :: nat)
      in if (65 \<le> n \<and> n \<le> 90) \<or> (192 \<le> n \<and> n \<le> 222 \<and> n \<noteq> 215)
         then char_of (n + 32) else c)"

definition toLowerCase :: "string \<Rightarrow> string" where
  "toLowerCase s = map toLowerChar s"

text \<open>\<open>confirm\<close> of the command-line utilities: an empty answer takes the default,
  any other answer is a yes when it reads \<open>y\<close> or \<open>yes\<close> after trimming and
  lower-casing.\<close>

definition confirm :: "env \<Rightarrow> string \<Rightarrow> bool \<Rightarrow> world \<Rightarrow> bool \<times> world" where
  "confirm e question assumeTrue w =
     (let msg = question @ '' ('' @ (if assumeTrue then ''Y/n'' else ''y/N'') @ '') '';
          answer = operator e msg
      in (if answer = [] then assumeTrue
          else toLowerCase (trim answer) \<in> set [''y'', ''yes''],
          print (Question msg) w))"

section \<open>The ephemeral workspace and the config writer\<close>

type_synonym state = "CertBuilder \<times> world"

definition onWorld :: "(world \<Rightarrow> 'a \<times> world) \<Rightarrow> state \<Rightarrow> 'a \<times> state" where
  "onWorld m = (\<lambda>(b, w). case m w of (r, w') \<Rightarrow> (r, (b, w')))"

text \<open>
  \<open>fsPromises.mkdtemp\<close> appends six random characters to the prefix and creates that
  directory; it creates a directory that was not there, or throws.
\<close>

definition mkdtemp :: "env \<Rightarrow> string \<Rightarrow> world \<Rightarrow> string result \<times> world" where
  "mkdtemp e prefix w =
     (let r = randomChar e (mkdtemps w);
          p = prefix @ [r 0, r 1, r 2, r 3, r 4, r 5]
      in if fs w p \<noteq> None
         then (Throw (SystemError ''EEXIST''), w\<lparr>mkdtemps := Suc (mkdtemps w)\<rparr>)
         else (Return p, w\<lparr>fs := (fs w)(p \<mapsto> Dir), mkdtemps := Suc (mkdtemps w)\<rparr>))"

definition makeTempDir :: "env \<Rightarrow> state \<Rightarrow> string result \<times> state" where
  "makeTempDir e =
     andThen (onWorld (mkdtemp e (path_join e (tmpdir e) ''local-ssl-certs-'')))
       (\<lambda>p (b, w). (Return p, (b\<lparr>tempDir := Some p\<rparr>, w)))"

definition getTempDir :: "env \<Rightarrow> state \<Rightarrow> string result \<times> state" where
  "getTempDir e =
     (\<lambda>(b, w).
        case tempDir b of
          None \<Rightarrow> makeTempDir e (b, w)
        | Some p \<Rightarrow> if p = [] then makeTempDir e (b, w) else (Return p, (b, w)))"

definition getConfFile :: "env \<Rightarrow> state \<Rightarrow> string result \<times> state" where
  "getConfFile e =
     andThen (getTempDir e) (\<lambda>d s. (Return (path_join e d ''shared.conf''), s))"

text \<open>
  \<open>#writeConfFile\<close>: one \<open>[section]\<close> line and one \<open>key = value\<close> line per
  entry. Opening and writing the file are taken to succeed.
\<close>

definition render_section :: "string \<times> kvs \<Rightarrow> string" where
  "render_section = (\<lambda>(name, kv).
     ''['' @ name @ '']'' @ [CHR 0x0A] @
     concat (map (\<lambda>(k, v). k @ '' = '' @ v @ [CHR 0x0A]) kv))"

definition writeConfFile :: "string \<Rightarrow> (string \<times> kvs) list \<Rightarrow> world \<Rightarrow> world" where
  "writeConfFile path sections w =
     w\<lparr>fs := (fs w)(path \<mapsto> File (concat (map render_section sections))),
       written := written w @ [path]\<rparr>"

text \<open>
  \<open>#cleanUp\<close>, the handler of the process's \<open>exit\<close> event. Its first component tells
  whether the handler itself called \<open>process.exit(1)\<close>, which ends the process before
  the report of new CAs.
\<close>

definition cleanUp :: "env \<Rightarrow> state \<Rightarrow> bool \<times> state" where
  "cleanUp e = (\<lambda>(b, w).
     case (if truthy (tempDir b)
           then (case rmSync e (case tempDir b of Some d \<Rightarrow> d | None \<Rightarrow> []) (fs w) of
                   Inr fs' \<Rightarrow> (False, w\<lparr>fs := fs'\<rparr>)
                 | Inl err \<Rightarrow>
                     if \<not> truthy (persistentRootCAKeyPath b) \<and>
                        (case rootCAInfo b of None \<Rightarrow> False | Some ci \<Rightarrow> keyPath ci \<noteq> [])
                     then (True,
                           print (Err ''Delete it manually before trusting the root CA.'' None)
                             (print (Err (''Could not delete root CA key file: '' @
                                        (case rootCAInfo b of None \<Rightarrow> [] | Some ci \<Rightarrow> keyPath ci)) None)
                                (print (Err ''Error cleaning up temp dir:'' (Some err)) w)))
                     else (False, print (Err ''Error cleaning up temp dir:'' (Some err)) w))
           else (False, w)) of
       (fatal, w1) \<Rightarrow>
         if fatal then (True, (b, w1))
         else (False,
               (b, if length (newCAs b) > 0
                   then print (Log (''Install new CA certs:'' @ [CHR 0x0A] @
                                    join_with [CHR 0x0A] (map (\<lambda>path. ''  + '' @ path) (newCAs b)))) w1
                   else w1)))"

text \<open>\<open>process.exit(code)\<close>: the exit handler runs, then the process ends.\<close>

definition processExit :: "env \<Rightarrow> nat \<Rightarrow> state \<Rightarrow> 'a result \<times> state" where
  "processExit e code s =
     (case cleanUp e s of (fatal, s') \<Rightarrow> (Exit (if fatal then 1 else code), s'))"

section \<open>The certificate validator\<close>

text \<open>
  The expiration-window step of \<open>validateSslCert\<close>, from the standard output of the
  \<open>-enddate\<close> invocation. Dates are time values in milliseconds; a comparison or a
  difference with the invalid date is false, as with \<open>NaN\<close>. Fourteen days are
  \<open>14 * 24 * 60 * 60 * 1000\<close> milliseconds.
\<close>

definition checkExpiration :: "env \<Rightarrow> string \<Rightarrow> world \<Rightarrow> unit result \<times> world" where
  "checkExpiration e stdout w =
     (case str_match notAfterRegex stdout of
        Some m \<Rightarrow>
          (let notAfter = parseDate e m
           in if (case notAfter of None \<Rightarrow> False | Some t \<Rightarrow> now e \<ge> t)
              then (Throw (Error (''Certificate expired on '' @ toUTCString e notAfter)), w)
              else if (case notAfter of None \<Rightarrow> False
                       | Some t \<Rightarrow> t - now e < 14 * 24 * 60 * 60 * 1000)
              then (Return (),
                    print (Warn (''Warning: Certificate expires on '' @ toUTCString e notAfter)) w)
              else (Return (), w))
      | None \<Rightarrow> (Throw (Error ''Could not parse certificate expiration date.''), w))"

text \<open>
  The name-coverage step, from the standard outputs of the \<open>-subject\<close> and the
  \<open>-ext subjectAltName\<close> invocations.
\<close>

definition certNames :: "string \<Rightarrow> string \<Rightarrow> string list" where
  "certNames cn altNamesStdout = [trim cn] @ map trim (matchAll dnsRegex altNamesStdout)"

definition checkNames :: "string \<Rightarrow> string \<Rightarrow> string list \<Rightarrow> world \<Rightarrow> unit result \<times> world" where
  "checkNames subjStdout altNamesStdout hostnames w =
     (case str_match cnRegex subjStdout of
        None \<Rightarrow> (Throw (Error ''Could not find common name (CN) in certificate.''), w)
      | Some cn \<Rightarrow>
          (let names = certNames cn altNamesStdout;
               missingNames = filter (\<lambda>hostname. hostname \<notin> set names) hostnames
           in if length missingNames > 0
              then (Throw (Error (''Some hostnames not found in certificate: '' @
                                  join_with '', '' missingNames)), w)
              else (Return (), w)))"












section \<open>The hierarchy builder\<close>

text \<open>
  The safe-mode loop of \<open>issueSignedCert\<close> over the key path and the certificate
  path: \<open>False\<close> is the early \<open>return null\<close> after a declined confirmation.
\<close>

fun confirmOverwrites :: "env \<Rightarrow> string list \<Rightarrow> world \<Rightarrow> bool \<times> world" where
  "confirmOverwrites e [] w = (True, w)"
| "confirmOverwrites e (path # paths) w =
     (if fs w path \<noteq> None
      then (case confirm e (''Overwrite existing file '' @ path @ ''?'') False w of
              (ok, w') \<Rightarrow>
                if \<not> ok then (False, print (Warn ''Aborting.'') w')
                else confirmOverwrites e paths w')
      else confirmOverwrites e paths w)"

text \<open>The \<open>hostnames\<close> parameter: \<open>null\<close> (the default), one string, or an array.\<close>

datatype hostnames = Null | Str string | Arr "string list"

definition subjAltName_of :: "hostnames \<Rightarrow> string list option" where
  "subjAltName_of hostnames =
     (case hostnames of
        Null \<Rightarrow> None
      | Str h \<Rightarrow> if length h > 0 then Some (map (\<lambda>hostname. ''DNS:'' @ hostname) [h]) else None
      | Arr hs \<Rightarrow> if length hs > 0 then Some (map (\<lambda>hostname. ''DNS:'' @ hostname) hs) else None)"

definition csrArgs :: "CertOptions \<Rightarrow> string \<Rightarrow> string \<Rightarrow> string \<Rightarrow> string \<Rightarrow> string list" where
  "csrArgs opts name keyOut csrOut conf =
     [''req'', ''-batch'', ''-new'', ''-newkey'', keyType opts, ''-nodes'',
      ''-keyout'', keyOut, ''-out'', csrOut, ''-config'', conf,
      ''-subj'', ''/C=US/O='' @ org opts @ ''/CN='' @ name, ''-text'']"

text \<open>The number \<open>9999\<close> of the argument array reaches the engine as the text
  \<open>9999\<close>.\<close>

definition signArgs :: "CertInfo \<Rightarrow> string \<Rightarrow> string \<Rightarrow> string \<Rightarrow> string list" where
  "signArgs issuer csrIn serial certOut =
     [''x509'', ''-req'', ''-in'', csrIn, ''-CA'', certPath issuer, ''-CAkey'', keyPath issuer,
      ''-CAserial'', serial, ''-CAcreateserial'', ''-extensions'', ''cert_extensions'',
      ''-days'', ''9999'', ''-trustout'', ''-out'', certOut, ''-text'']"

text \<open>The extension file of a leaf certificate: a copy of the leaf extensions with the
  subject alternative names set, under the section name \<open>cert_extensions\<close>.\<close>

definition sslExtensionsConfig :: "SharedConfig \<Rightarrow> string list \<Rightarrow> (string \<times> kvs) list" where
  "sslExtensionsConfig cfg subjAltName =
     [(''cert_extensions'',
       AList.update ''subjectAltName'' (join_with '','' subjAltName) (ssl_cert_extensions cfg))]"

definition printS :: "out \<Rightarrow> state \<Rightarrow> state" where
  "printS x = (\<lambda>(b, w). (b, print x w))"

text \<open>The first \<open>try\<close> block of \<open>issueSignedCert\<close>: the key pair and the signing
  request. Any failure is logged and ends the process.\<close>

definition requestCert :: "env \<Rightarrow> string \<Rightarrow> CertInfo \<Rightarrow> string \<Rightarrow> state \<Rightarrow> string result \<times> state" where
  "requestCert e name certInfo tmp =
     tryCatch
       (andThen (getConfFile e) (\<lambda>conf (b, w).
          onWorld (spawnAsync e ''openssl''
                     (csrArgs (options b) name (keyPath certInfo) (path_join e tmp ''req.csr'') conf)
                     None) (b, w)))
       (\<lambda>err s.
          processExit e 1
            (printS (Log ''undefined'') (printS (Err ''Error creating cert request:'' (Some err)) s)))"

text \<open>The second \<open>try\<close> block: the extension file (written for a leaf, the shared
  configuration otherwise), the optional \<open>-passin stdin\<close>, and the signing invocation
  with the issuer's password on its standard input.\<close>

definition extensionFile ::
  "env \<Rightarrow> string list option \<Rightarrow> string \<Rightarrow> state \<Rightarrow> string list result \<times> state" where
  "extensionFile e subjAltName tmp =
     (case subjAltName of
        Some san \<Rightarrow>
          (\<lambda>(b, w).
             (Return [''-extfile'', path_join e tmp ''ssl_extensions.conf''],
              (b, writeConfFile (path_join e tmp ''ssl_extensions.conf'')
                    (sslExtensionsConfig (sharedConfig b) san) w)))
      | None \<Rightarrow>
          andThen (getConfFile e) (\<lambda>conf s. (Return [''-extfile'', conf], s)))"

definition signCert ::
  "env \<Rightarrow> CertInfo \<Rightarrow> string list option \<Rightarrow> string \<Rightarrow> string \<Rightarrow> state \<Rightarrow> string result \<times> state" where
  "signCert e issuer subjAltName tmp pathPrefix =
     tryCatch
       (andThen (extensionFile e subjAltName tmp)
          (\<lambda>extfile.
             onWorld (spawnAsync e ''openssl''
                        (signArgs issuer (path_join e tmp ''req.csr'') (path_join e tmp ''ca.srl'')
                           (pathPrefix @ ''.crt'')
                         @ extfile
                         @ (if truthy (password issuer) then [''-passin'', ''stdin''] else []))
                        (if truthy (password issuer) then password issuer else None))))
       (\<lambda>err s.
          processExit e 1
            (printS (Log ''undefined'')
               (printS (Err [] (Some err)) (printS (Err (''Error signing cert:'' @ [CHR 0x0A]) None) s))))"

definition issueSignedCert ::
  "env \<Rightarrow> string \<Rightarrow> CertInfo \<Rightarrow> hostnames \<Rightarrow> state \<Rightarrow> CertInfo option result \<times> state" where
  "issueSignedCert e name issuer hostnames = (\<lambda>(b, w).
     let pathPrefix = path_join e (certDir b) name;
         certInfo = new_CertInfo (pathPrefix @ ''.crt'') (pathPrefix @ ''.key'')
     in case (if safeMode (options b)
              then confirmOverwrites e [keyPath certInfo, certPath certInfo] w
              else (True, w)) of
          (proceed, w1) \<Rightarrow>
            if \<not> proceed then (Return None, (b, w1))
            else
              andThen (getTempDir e) (\<lambda>tmp.
              andThen (requestCert e name certInfo tmp) (\<lambda>_.
              andThen (signCert e issuer (subjAltName_of hostnames) tmp pathPrefix) (\<lambda>_ s.
              (Return (Some certInfo), s))))
                (case subjAltName_of hostnames of
                   Some san \<Rightarrow> b
                 | None \<Rightarrow> b\<lparr>newCAs := newCAs b @ [certPath certInfo]\<rparr>,
                 w1))"

text \<open>
  \<open>createRootCA\<close>. The key path of a temporary root is the literal file name
  \<open>$certName.key\<close> in the workspace, as the code writes it.
\<close>

definition rootArgs :: "CertOptions \<Rightarrow> CertInfo \<Rightarrow> string \<Rightarrow> string list" where
  "rootArgs opts certInfo conf =
     [''req'', ''-x509'', ''-new'', ''-newkey'', keyType opts, ''-keyout'', keyPath certInfo,
      ''-passout'', ''stdin'', ''-out'', certPath certInfo, ''-days'', ''9999'',
      ''-config'', conf, ''-extensions'', ''root_cert_extensions'', ''-text'']"

definition rootPassword :: "env \<Rightarrow> state \<Rightarrow> string result \<times> state" where
  "rootPassword e = (\<lambda>(b, w).
     if truthy (persistentRootCAKeyPath b)
     then (case passwordPrompt e ''Create a password for the root CA: '' ''Confirm password: '' of
             Inl err \<Rightarrow> (Throw err, (b, w))
           | Inr pw \<Rightarrow> (Return pw, (b, w)))
     else (Return (randomBytesHex e), (b, w)))"

definition rootSafeMode :: "env \<Rightarrow> CertInfo \<Rightarrow> state \<Rightarrow> unit result \<times> state" where
  "rootSafeMode e certInfo = (\<lambda>(b, w).
     if safeMode (options b)
     then (let existingFiles = filter (\<lambda>path. fs w path \<noteq> None) [keyPath certInfo, certPath certInfo]
           in if length existingFiles > 0
              then (case confirm e (''Files exist:'' @ [CHR 0x0A] @ ''  '' @
                                    join_with ([CHR 0x0A] @ ''  '') existingFiles @ [CHR 0x0A] @
                                    ''Overwrite existing files ?'') False w of
                      (ok, w') \<Rightarrow>
                        if \<not> ok then processExit e 1 (b, print (Warn ''Aborting.'') w')
                        else (Return (), (b, w')))
              else (Return (), (b, w)))
     else (Return (), (b, w)))"

definition rootKeyPath :: "env \<Rightarrow> state \<Rightarrow> string result \<times> state" where
  "rootKeyPath e = (\<lambda>(b, w).
     if truthy (persistentRootCAKeyPath b)
     then (Return (case persistentRootCAKeyPath b of Some p \<Rightarrow> p | None \<Rightarrow> []), (b, w))
     else andThen (getTempDir e) (\<lambda>d s. (Return (path_join e d ''$certName.key''), s)) (b, w))"

text \<open>The \<open>try\<close> block of \<open>createRootCA\<close>: the self-signing invocation, with the
  password written to its standard input; on success the root is registered and its
  certificate reported as a new CA.\<close>

definition selfSignRoot :: "env \<Rightarrow> CertInfo \<Rightarrow> string \<Rightarrow> state \<Rightarrow> unit result \<times> state" where
  "selfSignRoot e certInfo pw =
     tryCatch
       (andThen (getConfFile e) (\<lambda>conf (b, w).
        andThen (onWorld (spawnAsync e ''openssl'' (rootArgs (options b) certInfo conf) (Some pw)))
          (\<lambda>_ (b, w).
             (Return (),
              (b\<lparr>rootCAInfo := Some (certInfo\<lparr>password := Some pw\<rparr>),
                 newCAs := newCAs b @ [certPath certInfo]\<rparr>, w))) (b, w)))
       (\<lambda>err s.
          processExit e 1
            (printS (Log ''undefined'')
               (printS (Err ''Error creating root CA cert:'' (Some err)) s)))"

definition createRootCA :: "env \<Rightarrow> state \<Rightarrow> unit result \<times> state" where
  "createRootCA e =
     andThen (rootKeyPath e)
       (\<lambda>privKeyPath (b, w).
          let certName = get_prop (root_distinguished_name (sharedConfig b)) ''commonName'';
              certInfo = new_CertInfo (path_join e (certDir b) (certName @ ''.crt'')) privKeyPath
          in andThen (rootSafeMode e certInfo) (\<lambda>_.
             andThen (rootPassword e) (\<lambda>pw.
             selfSignRoot e certInfo pw)) (b, w))"

text \<open>
  The factory \<open>CertBuilder.create\<close>: the engine must be available; the store directory
  is created if absent; the shared configuration is written to the workspace.
\<close>

definition create ::
  "env \<Rightarrow> string \<Rightarrow> string option \<Rightarrow> CertOptions option \<Rightarrow> world \<Rightarrow> CertBuilder result \<times> world" where
  "create e dir rootCAKeyPath certOptions w =
     (if \<not> opensslVersionOk e then (Throw (Error ''openssl command not available.''), w)
      else
        let opts = (case certOptions of
                      None \<Rightarrow> new_CertOptions \<lparr>cfg_org = None, cfg_countryName = None,
                                cfg_keyType = None, cfg_keyCipher = None, cfg_safeMode = None\<rparr>
                    | Some given \<Rightarrow> given);
            builder = new_CertBuilder dir opts rootCAKeyPath;
            w0 = (case rootCAKeyPath of None \<Rightarrow> w | Some p \<Rightarrow> print (Log p) w)
        in case fs w0 dir of
             Some (File _) \<Rightarrow> (Throw (SystemError ''EEXIST''), w0)
           | _ \<Rightarrow>
               (case getConfFile e (builder, w0\<lparr>fs := (fs w0)(dir \<mapsto> Dir)\<rparr>) of
                  (Return conf, (b, w1)) \<Rightarrow>
                    (Return b, writeConfFile conf (sections_of (sharedConfig b)) w1)
                | (Throw err, (b, w1)) \<Rightarrow> (Throw err, w1)
                | (Exit c, (b, w1)) \<Rightarrow> (Exit c, w1)))"

section \<open>Vocabulary of the properties\<close>














text \<open>
  The engine invocations on record after an operation of the builder, and an environment
  with given password sources: the password the operator types and the random password.
\<close>

definition invocations ::
  "'a \<times> CertBuilder \<times> world \<Rightarrow> (string list \<times> string option \<times> proc) list" where
  "invocations x = spawned (snd (snd x))"

definition withPassword :: "env \<Rightarrow> string \<Rightarrow> string \<Rightarrow> env" where
  "withPassword e typed random =
     e\<lparr>passwordPrompt := (\<lambda>prompt retype. Inr typed), randomBytesHex := random\<rparr>"

section \<open>A concrete run\<close>

text \<open>
  An environment to run the model in: an engine that succeeds, prints what the real one
  prints for a certificate of \<open>a.test\<close> and \<open>b.test\<close> expiring on 13 November 2026,
  and writes the files named after \<open>-keyout\<close> and \<open>-out\<close>; an operator who answers
  \<open>n\<close>; the clock at 3 November 2026, 11:00 UTC.
\<close>

fun argAfter :: "string \<Rightarrow> string list \<Rightarrow> string option" where
  "argAfter flag (a # b # rest) = (if a = flag then Some b else argAfter flag (b # rest))"
| "argAfter flag rest = None"

definition demoStdout :: "string list \<Rightarrow> string" where
  "demoStdout args =
     (if ''-enddate'' \<in> set args then ''notAfter=Nov 13 11:00:00 2026 GMT'' @ [CHR 0x0A]
      else if ''-subject'' \<in> set args then ''subject=C = US, O = Acme, CN = a.test'' @ [CHR 0x0A]
      else if ''-ext'' \<in> set args
        then ''X509v3 Subject Alternative Name: '' @ [CHR 0x0A] @
             ''    DNS:a.test, DNS:b.test'' @ [CHR 0x0A]
      else if ''-modulus'' \<in> set args then ''Modulus=C0FFEE'' @ [CHR 0x0A]
      else [])"

definition demoWrites :: "string list \<Rightarrow> files \<Rightarrow> files" where
  "demoWrites args files =
     (let f1 = (case argAfter ''-keyout'' args of None \<Rightarrow> files | Some k \<Rightarrow> files(k \<mapsto> File ''KEY''))
      in case argAfter ''-out'' args of None \<Rightarrow> f1 | Some c \<Rightarrow> f1(c \<mapsto> File ''CERT''))"

definition demoEngine :: "nat \<Rightarrow> string list \<Rightarrow> string option \<Rightarrow> files \<Rightarrow> proc \<times> files" where
  "demoEngine n args input files = (Closed (Some 0) (demoStdout args), demoWrites args files)"

definition failingEngine :: "nat \<Rightarrow> string list \<Rightarrow> string option \<Rightarrow> files \<Rightarrow> proc \<times> files" where
  "failingEngine n args input files = (Closed (Some 1) [], files)"

definition demoParseDate :: "string \<Rightarrow> int option" where
  "demoParseDate s =
     (if s = ''Nov 13 11:00:00 2026 GMT'' then Some 1794567600000
      else if s = ''Nov 23 11:00:00 2026 GMT'' then Some 1795431600000
      else if s = ''Nov  2 11:00:00 2026 GMT'' then Some 1793617200000
      else None)"

definition demoUTCString :: "int option \<Rightarrow> string" where
  "demoUTCString t =
     (if t = Some 1794567600000 then ''Fri, 13 Nov 2026 11:00:00 GMT''
      else if t = Some 1795431600000 then ''Mon, 23 Nov 2026 11:00:00 GMT''
      else if t = Some 1793617200000 then ''Mon, 02 Nov 2026 11:00:00 GMT''
      else ''Invalid Date'')"

definition demoEnv :: env where
  "demoEnv =
     \<lparr> engine = demoEngine,
       operator = (\<lambda>question. ''n''),
       passwordPrompt = (\<lambda>prompt retype. Inr ''hunter2''),
       randomBytesHex = ''9f86d081884c7d659a2feaa0c55ad015a3bf4f1b2b0b822cd15d6c15b0f00a08'',
       randomChar = (\<lambda>n i. CHR ''x''),
       tmpdir = ''/tmp'',
       path_join = (\<lambda>a b. a @ ''/'' @ b),
       parseDate = demoParseDate,
       now = 1793703600000,
       toUTCString = demoUTCString,
       rmSync = (\<lambda>path files. Inr (\<lambda>q. if startsWith q path then None else files q)),
       opensslVersionOk = True \<rparr>"

definition emptyWorld :: world where
  "emptyWorld = \<lparr> fs = Map.empty, spawned = [], console = [], mkdtemps = 0, written = [] \<rparr>"

definition defaultConfig :: CertOptionsConfig where
  "defaultConfig =
     \<lparr> cfg_org = None, cfg_countryName = None, cfg_keyType = None, cfg_keyCipher = None,
       cfg_safeMode = None \<rparr>"

definition demoBuilder :: CertBuilder where
  "demoBuilder = new_CertBuilder ''certs'' (new_CertOptions defaultConfig) None"


definition demoRoot :: CertInfo where
  "demoRoot =
     \<lparr> certPath = ''certs/Acme Root Dev CA.crt'', keyPath = ''/tmp/root.key'',
       password = Some ''hunter2'' \<rparr>"

definition failEnv :: env where
  "failEnv = demoEnv\<lparr>engine := failingEngine\<rparr>"

definition issuedWorld :: world where
  "issuedWorld =
     emptyWorld\<lparr>fs := [''certs/a.test.key'' \<mapsto> File ''KEY'', ''certs/a.test.crt'' \<mapsto> File ''CERT'']\<rparr>"

definition germanBuilder :: CertBuilder where
  "germanBuilder =
     new_CertBuilder ''certs''
       (new_CertOptions (defaultConfig\<lparr>cfg_countryName := Some ''DE'', cfg_safeMode := Some False\<rparr>))
       None"

section \<open>Verified properties\<close>

subsection \<open>Monad laws and the shape of the validator\<close>







subsection \<open>Traces\<close>















subsection \<open>The concrete run, step by step\<close>

lemma demo_notAfter:
  "str_match notAfterRegex ''notAfter=Nov 13 11:00:00 2026 GMT\<newline>'' = Some ''Nov 13 11:00:00 2026 GMT''"
  "str_match notAfterRegex ''notAfter=Nov 23 11:00:00 2026 GMT\<newline>'' = Some ''Nov 23 11:00:00 2026 GMT''"
  "str_match notAfterRegex ''notAfter=Nov  2 11:00:00 2026 GMT\<newline>'' = Some ''Nov  2 11:00:00 2026 GMT''"
  "str_match notAfterRegex ''unable to load certificate\<newline>'' = None"
  by code_simp+

lemma demo_cn:
  "str_match cnRegex ''subject=C = US, O = Acme, CN = a.test\<newline>'' = Some ''a.test''"
  by code_simp

lemma demo_dns:
  "matchAll dnsRegex ''X509v3 Subject Alternative Name: \<newline>    DNS:a.test, DNS:b.test\<newline>''
     = [''a.test'', ''b.test'']"
  by code_simp

lemma demo_trim:
  "trim ''a.test'' = ''a.test''"
  "trim ''b.test'' = ''b.test''"
  "trim ''Modulus=C0FFEE\<newline>'' = ''Modulus=C0FFEE''"
  by code_simp+






subsection \<open>The claims\<close>



text \<open>
  C2. When the subject line yields a Common Name, the name-coverage step throws exactly
  when some requested hostname is absent from the trimmed Common Name and the trimmed
  \<open>DNS:\<close> entries of the alternative-name text, and the error message lists the
  absent hostnames, in the order requested and joined by commas.
\<close>

theorem name_coverage:
  assumes "str_match cnRegex subjOut = Some cn"
  shows "((\<exists>err. fst (checkNames subjOut altOut hostnames w) = Throw err) \<longleftrightarrow>
          (\<exists>h \<in> set hostnames. h \<notin> set (trim cn # map trim (matchAll dnsRegex altOut))))
         \<and> (filter (\<lambda>h. h \<notin> set (trim cn # map trim (matchAll dnsRegex altOut))) hostnames \<noteq> [] \<longrightarrow>
              checkNames subjOut altOut hostnames w =
                (Throw (Error (''Some hostnames not found in certificate: '' @
                   join_with '', ''
                     (filter (\<lambda>h. h \<notin> set (trim cn # map trim (matchAll dnsRegex altOut))) hostnames))), w))
         \<and> (filter (\<lambda>h. h \<notin> set (trim cn # map trim (matchAll dnsRegex altOut))) hostnames = [] \<longrightarrow>
              checkNames subjOut altOut hostnames w = (Return (), w))"
proof -
  define names where "names = trim cn # map trim (matchAll dnsRegex altOut)"
  define missing where "missing = filter (\<lambda>h. h \<notin> set names) hostnames"
  have cn: "certNames cn altOut = names"
    by (simp add: certNames_def names_def)
  have run: "checkNames subjOut altOut hostnames w =
      (if missing \<noteq> []
       then (Throw (Error (''Some hostnames not found in certificate: '' @ join_with '', '' missing)), w)
       else (Return (), w))"
    unfolding checkNames_def assms option.case cn Let_def missing_def by simp
  have ex: "missing \<noteq> [] \<longleftrightarrow> (\<exists>h \<in> set hostnames. h \<notin> set names)"
    unfolding missing_def by (simp only: filter_empty_conv) blast
  have thrown: "(\<exists>err. fst (checkNames subjOut altOut hostnames w) = Throw err) \<longleftrightarrow> missing \<noteq> []"
    unfolding run by (cases "missing = []") simp_all
  show ?thesis
    unfolding names_def[symmetric] missing_def[symmetric]
    using run ex thrown by presburger
qed

theorem name_coverage_witness:
  "str_match cnRegex ''subject=C = US, O = Acme, CN = a.test\<newline>'' = Some ''a.test''
   \<and> checkNames ''subject=C = US, O = Acme, CN = a.test\<newline>''
        ''X509v3 Subject Alternative Name: \<newline>    DNS:a.test, DNS:b.test\<newline>''
        [''a.test'', ''missing.test''] emptyWorld
      = (Throw (Error ''Some hostnames not found in certificate: missing.test''), emptyWorld)
   \<and> checkNames ''subject=C = US, O = Acme, CN = a.test\<newline>''
        ''X509v3 Subject Alternative Name: \<newline>    DNS:a.test, DNS:b.test\<newline>''
        [''a.test'', ''b.test''] emptyWorld
      = (Return (), emptyWorld)"
  using name_coverage[OF demo_cn,
          of "''X509v3 Subject Alternative Name: \<newline>    DNS:a.test, DNS:b.test\<newline>''"
             "[''a.test'', ''missing.test'']" emptyWorld]
        name_coverage[OF demo_cn,
          of "''X509v3 Subject Alternative Name: \<newline>    DNS:a.test, DNS:b.test\<newline>''"
             "[''a.test'', ''b.test'']" emptyWorld]
  by (simp add: demo_cn demo_dns demo_trim)

text \<open>
  C3. The expiration-window step: output without the \<open>notAfter\<close> pattern is a parse
  error; with the parsed time \<open>t\<close>, a current time at or after \<open>t\<close> is the
  expired-certificate error; less than fourteen days to \<open>t\<close> is a warning and the
  step returns; fourteen days or more is no warning and the step returns.
\<close>

theorem expiration_window:
  "(str_match notAfterRegex out = None \<longrightarrow>
      checkExpiration e out w = (Throw (Error ''Could not parse certificate expiration date.''), w))
   \<and> (str_match notAfterRegex out = Some m \<and> parseDate e m = Some t \<longrightarrow>
        (now e \<ge> t \<longrightarrow>
           checkExpiration e out w =
             (Throw (Error (''Certificate expired on '' @ toUTCString e (Some t))), w))
        \<and> (now e < t \<and> t - now e < 14 * 86400000 \<longrightarrow>
             checkExpiration e out w =
               (Return (), print (Warn (''Warning: Certificate expires on '' @ toUTCString e (Some t))) w))
        \<and> (t - now e \<ge> 14 * 86400000 \<longrightarrow> checkExpiration e out w = (Return (), w)))"
  by (auto simp: checkExpiration_def Let_def)

theorem expiration_window_witness:
  "checkExpiration demoEnv ''unable to load certificate\<newline>'' emptyWorld
     = (Throw (Error ''Could not parse certificate expiration date.''), emptyWorld)
   \<and> checkExpiration demoEnv ''notAfter=Nov  2 11:00:00 2026 GMT\<newline>'' emptyWorld
     = (Throw (Error ''Certificate expired on Mon, 02 Nov 2026 11:00:00 GMT''), emptyWorld)
   \<and> checkExpiration demoEnv ''notAfter=Nov 13 11:00:00 2026 GMT\<newline>'' emptyWorld
     = (Return (), print (Warn ''Warning: Certificate expires on Fri, 13 Nov 2026 11:00:00 GMT'') emptyWorld)
   \<and> checkExpiration demoEnv ''notAfter=Nov 23 11:00:00 2026 GMT\<newline>'' emptyWorld
     = (Return (), emptyWorld)"
  using expiration_window[of "''unable to load certificate\<newline>''" demoEnv emptyWorld]
        expiration_window[of "''notAfter=Nov  2 11:00:00 2026 GMT\<newline>''" demoEnv emptyWorld
          "''Nov  2 11:00:00 2026 GMT''" 1793617200000]
        expiration_window[of "''notAfter=Nov 13 11:00:00 2026 GMT\<newline>''" demoEnv emptyWorld
          "''Nov 13 11:00:00 2026 GMT''" 1794567600000]
        expiration_window[of "''notAfter=Nov 23 11:00:00 2026 GMT\<newline>''" demoEnv emptyWorld
          "''Nov 23 11:00:00 2026 GMT''" 1795431600000]
  by (simp add: demo_notAfter demoEnv_def demoParseDate_def demoUTCString_def)






subsection \<open>What the steps of the builder leave unchanged\<close>

lemma confirm_world:
  "snd (confirm e q a w) = print (Question (q @ '' ('' @ (if a then ''Y/n'' else ''y/N'') @ '') '')) w"
  "fst (confirm e q a w) = fst (confirm e q a w0)"
  by (simp_all add: confirm_def Let_def)

lemma print_keeps:
  "fs (print x w) = fs w" "spawned (print x w) = spawned w"
  "mkdtemps (print x w) = mkdtemps w" "written (print x w) = written w"
  by (simp_all add: print_def)

lemma confirmOverwrites_keeps:
  "confirmOverwrites e paths w = (ok, w') \<Longrightarrow>
     fs w' = fs w \<and> spawned w' = spawned w \<and> mkdtemps w' = mkdtemps w \<and> written w' = written w"
proof (induction paths arbitrary: w)
  case Nil
  then show ?case by simp
next
  case (Cons path paths)
  show ?case
  proof (cases "fs w path \<noteq> None")
    case False
    with Cons show ?thesis by simp
  next
    case True
    obtain ok1 w1 where c: "confirm e (''Overwrite existing file '' @ path @ ''?'') False w = (ok1, w1)"
      by (cases "confirm e (''Overwrite existing file '' @ path @ ''?'') False w")
    have w1: "w1 = print (Question ((''Overwrite existing file '' @ path @ ''?'') @ '' (y/N) '')) w"
      using confirm_world(1)[of e "''Overwrite existing file '' @ path @ ''?''" False w] c by simp
    show ?thesis
    proof (cases ok1)
      case False
      with Cons.prems True c w1 show ?thesis by (auto simp: print_keeps)
    next
      case ok: True
      with Cons.prems True c have "confirmOverwrites e paths w1 = (ok, w')" by simp
      from Cons.IH[OF this] w1 show ?thesis by (simp add: print_keeps)
    qed
  qed
qed









lemma issueSignedCert_unfold:
  "issueSignedCert e name issuer hs (b, w) =
     (case (if safeMode (options b)
            then confirmOverwrites e [path_join e (certDir b) name @ ''.key'',
                                      path_join e (certDir b) name @ ''.crt''] w
            else (True, w)) of
        (proceed, w1) \<Rightarrow>
          if \<not> proceed then (Return None, (b, w1))
          else andThen (getTempDir e) (\<lambda>tmp.
               andThen (requestCert e name
                          (new_CertInfo (path_join e (certDir b) name @ ''.crt'')
                                        (path_join e (certDir b) name @ ''.key'')) tmp) (\<lambda>_.
               andThen (signCert e issuer (subjAltName_of hs) tmp (path_join e (certDir b) name)) (\<lambda>_ s.
               (Return (Some (new_CertInfo (path_join e (certDir b) name @ ''.crt'')
                                           (path_join e (certDir b) name @ ''.key''))), s))))
                 (case subjAltName_of hs of
                    Some san \<Rightarrow> b
                  | None \<Rightarrow> b\<lparr>newCAs := newCAs b @ [path_join e (certDir b) name @ ''.crt'']\<rparr>,
                  w1))"
  by (simp add: issueSignedCert_def Let_def new_CertInfo_def del: confirmOverwrites.simps
      split: prod.splits option.splits)


lemma confirmOverwrites_declined:
  assumes "path \<in> set paths" "fs w path \<noteq> None"
    "\<not> fst (confirm e (''Overwrite existing file '' @ path @ ''?'') False w0)"
  shows "fst (confirmOverwrites e paths w) = False"
  using assms(1,2)
proof (induction paths arbitrary: w)
  case Nil
  then show ?case by simp
next
  case (Cons p paths)
  show ?case
  proof (cases "fs w p \<noteq> None")
    case False
    with Cons.prems have "path \<in> set paths" by auto
    from Cons.IH[OF this Cons.prems(2)] False show ?thesis by simp
  next
    case True
    obtain ok1 w1 where c: "confirm e (''Overwrite existing file '' @ p @ ''?'') False w = (ok1, w1)"
      by (cases "confirm e (''Overwrite existing file '' @ p @ ''?'') False w")
    show ?thesis
    proof (cases ok1)
      case False
      with True c show ?thesis by simp
    next
      case ok: True
      have "p \<noteq> path"
      proof
        assume "p = path"
        with c ok have "fst (confirm e (''Overwrite existing file '' @ path @ ''?'') False w)" by simp
        with assms(3) confirm_world(2)[of e _ False w w0] show False by simp
      qed
      with Cons.prems have mem: "path \<in> set paths" by auto
      have "fs w1 path \<noteq> None"
        using confirm_world(1)[of e "''Overwrite existing file '' @ p @ ''?''" False w] c Cons.prems(2)
        by (simp add: print_keeps)
      from Cons.IH[OF mem this] True c ok show ?thesis by simp
    qed
  qed
qed

subsection \<open>Evaluating the builder in the concrete environment\<close>

lemmas issue_defs = issueSignedCert_def requestCert_def signCert_def extensionFile_def getTempDir_def makeTempDir_def
  getConfFile_def mkdtemp_def andThen_def tryCatch_def onWorld_def spawnAsync_def processExit_def
  cleanUp_def printS_def print_def writeConfFile_def subjAltName_of_def truthy_def new_CertInfo_def
  csrArgs_def signArgs_def sslExtensionsConfig_def confirm_def

lemmas demo_defs = demoEnv_def failEnv_def demoEngine_def failingEngine_def demoStdout_def demoWrites_def
  demoBuilder_def germanBuilder_def new_CertBuilder_def new_CertOptions_def defaultConfig_def
  or_default_def emptyWorld_def demoRoot_def mk_sharedConfig_def

lemma demo_declines: "\<not> fst (confirm demoEnv question False w)"
proof -
  have t: "trim ''n'' = ''n''" by code_simp
  have l: "toLowerCase ''n'' = ''n''" by code_simp
  show ?thesis by (simp add: confirm_def demoEnv_def Let_def t l)
qed

subsection \<open>The claims about the builder\<close>

text \<open>
  C4. With safe mode on, when the key file or the certificate file of the name exists
  and the operator declines the confirmation for it, \<open>issueSignedCert\<close> returns
  \<open>null\<close>; the builder is unchanged, no engine invocation is made, no temporary
  directory is requested, no file is written, and the file system is as it was.
\<close>

theorem declined_overwrite_changes_nothing:
  assumes "safeMode (options b)"
    and "path = path_join e (certDir b) name @ ''.key'' \<or> path = path_join e (certDir b) name @ ''.crt''"
    and "fs w path \<noteq> None"
    and "\<not> fst (confirm e (''Overwrite existing file '' @ path @ ''?'') False w)"
  shows "\<exists>w'. issueSignedCert e name issuer hostnames (b, w) = (Return None, (b, w'))
           \<and> fs w' = fs w \<and> spawned w' = spawned w \<and> mkdtemps w' = mkdtemps w
           \<and> written w' = written w"
proof -
  let ?paths = "[path_join e (certDir b) name @ ''.key'', path_join e (certDir b) name @ ''.crt'']"
  obtain ok w1 where c: "confirmOverwrites e ?paths w = (ok, w1)"
    by (cases "confirmOverwrites e ?paths w")
  have mem: "path \<in> set ?paths" using assms(2) by auto
  have "fst (confirmOverwrites e ?paths w) = False"
    by (rule confirmOverwrites_declined[OF mem assms(3) assms(4)])
  with c have ok: "\<not> ok" by simp
  have "issueSignedCert e name issuer hostnames (b, w) = (Return None, (b, w1))"
    using assms(1) c ok
    by (simp add: issueSignedCert_def Let_def new_CertInfo_def del: confirmOverwrites.simps)
  with confirmOverwrites_keeps[OF c] show ?thesis by simp
qed

theorem declined_overwrite_changes_nothing_witness:
  "fst (issueSignedCert demoEnv ''a.test'' demoRoot (Arr [''a.test'']) (demoBuilder, issuedWorld))
     = Return None
   \<and> fs (snd (snd (issueSignedCert demoEnv ''a.test'' demoRoot (Arr [''a.test''])
                     (demoBuilder, issuedWorld)))) = fs issuedWorld
   \<and> spawned (snd (snd (issueSignedCert demoEnv ''a.test'' demoRoot (Arr [''a.test''])
                     (demoBuilder, issuedWorld)))) = []"
proof -
  have safe: "safeMode (options demoBuilder)"
    by (simp add: demo_defs)
  have path: "''certs/a.test.key'' = path_join demoEnv (certDir demoBuilder) ''a.test'' @ ''.key''
              \<or> ''certs/a.test.key'' = path_join demoEnv (certDir demoBuilder) ''a.test'' @ ''.crt''"
    by (simp add: demo_defs)
  have there: "fs issuedWorld ''certs/a.test.key'' \<noteq> None"
    by (simp add: issuedWorld_def)
  have none: "spawned issuedWorld = []"
    by (simp add: issuedWorld_def emptyWorld_def)
  from declined_overwrite_changes_nothing[OF safe path there demo_declines,
         where issuer = demoRoot and hostnames = "Arr [''a.test'']"]
  show ?thesis using none by auto
qed

text \<open>
  C5. The claim is that the certificate of a CA link whose engine invocation failed is
  absent from the report of new CAs printed at exit. In the code the path is put on the
  list before the engine runs: when the signing request fails, the process exits with
  code 1, no certificate file exists, and the report printed by the exit handler names
  it.
\<close>

theorem failed_ca_link_is_reported:
  "fst (issueSignedCert failEnv ''Acme Intermediate Dev CA'' demoRoot Null (demoBuilder, emptyWorld)) = Exit 1
   \<and> map (snd \<circ> snd) (spawned (snd (snd
         (issueSignedCert failEnv ''Acme Intermediate Dev CA'' demoRoot Null (demoBuilder, emptyWorld)))))
       = [Closed (Some 1) []]
   \<and> fs (snd (snd (issueSignedCert failEnv ''Acme Intermediate Dev CA'' demoRoot Null (demoBuilder, emptyWorld))))
        ''certs/Acme Intermediate Dev CA.crt'' = None
   \<and> last (console (snd (snd
         (issueSignedCert failEnv ''Acme Intermediate Dev CA'' demoRoot Null (demoBuilder, emptyWorld)))))
       = Log ''Install new CA certs:\<newline>  + certs/Acme Intermediate Dev CA.crt''"
  by (simp add: issue_defs demo_defs Let_def)

text \<open>
  C6. The claim is that the subject of the signing request carries the configured
  country. The code writes the country \<open>US\<close> into the subject whatever the options
  say: with the country \<open>DE\<close> configured (and present in the distinguished names of
  the shared configuration), the request is made with \<open>/C=US/O=Acme/CN=a.test\<close>.
\<close>

theorem csr_subject_ignores_country:
  "countryName (options germanBuilder) = ''DE''
   \<and> map_of (req_distinguished_name (sharedConfig germanBuilder)) ''countryName'' = Some ''DE''
   \<and> map (argAfter ''-subj'' \<circ> fst) (spawned (snd (snd
         (issueSignedCert demoEnv ''a.test'' demoRoot (Arr [''a.test'']) (germanBuilder, emptyWorld)))))
       = [Some ''/C=US/O=Acme/CN=a.test'', None]"
  by (simp add: issue_defs demo_defs Let_def)



subsection \<open>The engine invocations of each step of the builder\<close>

lemma inv_pair: "invocations (r, (b, w)) = spawned w"
  by (simp add: invocations_def)

lemma spawned_cleanUp: "spawned (snd (snd (cleanUp e (b, w)))) = spawned w"
  by (simp add: cleanUp_def print_def split: prod.splits sum.splits if_splits)

lemma inv_processExit: "invocations (processExit e c (b, w)) = spawned w"
proof -
  obtain fatal b2 w2 where cl: "cleanUp e (b, w) = (fatal, (b2, w2))"
    by (cases "cleanUp e (b, w)") auto
  with spawned_cleanUp[of e b w] have "spawned w2 = spawned w" by simp
  with cl show ?thesis by (simp add: invocations_def processExit_def)
qed

lemma spawned_printS: "spawned (snd (printS x s)) = spawned (snd s)"
  by (cases s) (simp add: printS_def print_def)

lemma inv_andThen_cases:
  "invocations (andThen m f s) =
     (case m s of
        (Return x, s1) \<Rightarrow> invocations (f x s1)
      | (Throw err, s1) \<Rightarrow> spawned (snd s1)
      | (Exit c, s1) \<Rightarrow> spawned (snd s1))"
  by (simp add: andThen_def invocations_def split: prod.splits result.splits)

lemma andThen_ReturnI: "m s = (Return x, s1) \<Longrightarrow> andThen m f s = f x s1"
  by (simp add: andThen_def)

lemma andThen_ThrowI: "m s = (Throw err, s1) \<Longrightarrow> andThen m f s = (Throw err, s1)"
  by (simp add: andThen_def)

lemma andThen_ExitI: "m s = (Exit c, s1) \<Longrightarrow> andThen m f s = (Exit c, s1)"
  by (simp add: andThen_def)

lemma inv_andThen_frame:
  assumes "\<And>x b w. invocations (f x (b, w)) = spawned w"
  shows "invocations (andThen m f s) = invocations (m s)"
proof -
  obtain r b1 w1 where ms: "m s = (r, (b1, w1))" by (cases "m s") auto
  show ?thesis
    by (cases r) (simp_all add: inv_andThen_cases ms assms inv_pair)
qed

lemma inv_tryCatch_exit:
  assumes "\<And>err s. spawned (snd (g err s)) = spawned (snd s)"
  shows "invocations (tryCatch m (\<lambda>err s. processExit e c (g err s)) s) = invocations (m s)"
proof -
  obtain r b1 w1 where ms: "m s = (r, (b1, w1))" by (cases "m s") auto
  show ?thesis
  proof (cases r)
    case (Return x)
    with ms show ?thesis by (simp add: tryCatch_def)
  next
    case (Throw err)
    obtain b2 w2 where g: "g err (b1, w1) = (b2, w2)" by (cases "g err (b1, w1)")
    with assms[of err "(b1, w1)"] have "spawned w2 = spawned w1" by simp
    with ms Throw g show ?thesis by (simp add: tryCatch_def inv_processExit inv_pair)
  next
    case (Exit k)
    with ms show ?thesis by (simp add: tryCatch_def)
  qed
qed

lemma inv_spawn:
  "invocations (onWorld (spawnAsync e cmd args inp) (b, w)) =
     spawned w @ [(args, inp, fst (engine e (length (spawned w)) args inp (fs w)))]"
proof -
  obtain p fs' where en: "engine e (length (spawned w)) args inp (fs w) = (p, fs')"
    by (cases "engine e (length (spawned w)) args inp (fs w)")
  show ?thesis
    by (cases p) (simp_all add: invocations_def onWorld_def spawnAsync_def en)
qed

lemma inv_getTempDir: "invocations (getTempDir e (b, w)) = spawned w"
  by (simp add: invocations_def getTempDir_def makeTempDir_def andThen_def onWorld_def mkdtemp_def
      Let_def split: option.splits)

lemma inv_getConfFile: "invocations (getConfFile e (b, w)) = spawned w"
  unfolding getConfFile_def
  using inv_andThen_frame[of "\<lambda>d s. (Return (path_join e d ''shared.conf''), s)" "getTempDir e" "(b, w)"]
  by (simp add: inv_pair inv_getTempDir)

lemma inv_extensionFile: "invocations (extensionFile e san tmp (b, w)) = spawned w"
proof (cases san)
  case None
  show ?thesis
    unfolding extensionFile_def None option.case
    using inv_andThen_frame[of "\<lambda>conf s. (Return [''-extfile'', conf], s)" "getConfFile e" "(b, w)"]
    by (simp add: inv_pair inv_getConfFile)
next
  case (Some names)
  then show ?thesis
    by (simp add: extensionFile_def invocations_def writeConfFile_def)
qed

lemma state_inv: "invocations (r, s1) = spawned w \<Longrightarrow> spawned (snd s1) = spawned w"
  by (simp add: invocations_def)

subsection \<open>Invocations of the signing step\<close>

lemma signCert_inv:
  "invocations (signCert e i san tmp pp (b, w)) =
     (case extensionFile e san tmp (b, w) of
        (Return ext, s1) \<Rightarrow>
          spawned w @
            [(signArgs i (path_join e tmp ''req.csr'') (path_join e tmp ''ca.srl'') (pp @ ''.crt'')
                @ ext @ (if truthy (password i) then [''-passin'', ''stdin''] else []),
              if truthy (password i) then password i else None,
              fst (engine e (length (spawned w))
                     (signArgs i (path_join e tmp ''req.csr'') (path_join e tmp ''ca.srl'') (pp @ ''.crt'')
                        @ ext @ (if truthy (password i) then [''-passin'', ''stdin''] else []))
                     (if truthy (password i) then password i else None) (fs (snd s1))))]
      | (Throw err, s1) \<Rightarrow> spawned w
      | (Exit c, s1) \<Rightarrow> spawned w)"
proof -
  obtain r b1 w1 where x: "extensionFile e san tmp (b, w) = (r, (b1, w1))"
    by (cases "extensionFile e san tmp (b, w)") auto
  with inv_extensionFile[of e san tmp b w] have w1: "spawned w1 = spawned w"
    by (simp add: invocations_def)
  have "invocations (signCert e i san tmp pp (b, w)) =
        invocations (andThen (extensionFile e san tmp)
          (\<lambda>extfile.
             onWorld (spawnAsync e ''openssl''
                        (signArgs i (path_join e tmp ''req.csr'') (path_join e tmp ''ca.srl'')
                           (pp @ ''.crt'')
                         @ extfile
                         @ (if truthy (password i) then [''-passin'', ''stdin''] else []))
                        (if truthy (password i) then password i else None))) (b, w))"
    unfolding signCert_def by (rule inv_tryCatch_exit) (simp add: spawned_printS)
  then show ?thesis
    by (cases r) (simp_all add: inv_andThen_cases x inv_spawn w1)
qed

lemma signCert_args:
  assumes "certPath i1 = certPath i2" "keyPath i1 = keyPath i2"
    "truthy (password i1) = truthy (password i2)"
  shows "map fst (invocations (signCert e i1 san tmp pp (b, w)))
       = map fst (invocations (signCert e i2 san tmp pp (b, w)))"
proof -
  obtain r s1 where x: "extensionFile e san tmp (b, w) = (r, s1)"
    by (cases "extensionFile e san tmp (b, w)")
  show ?thesis
    by (cases r) (simp_all add: signCert_inv x signArgs_def assms)
qed

lemma signCert_inputs:
  "\<exists>X. invocations (signCert e i san tmp pp (b, w)) = spawned w @ X
       \<and> map (fst \<circ> snd) X \<in> set [[], [if truthy (password i) then password i else None]]"
proof -
  obtain r s1 where x: "extensionFile e san tmp (b, w) = (r, s1)"
    by (cases "extensionFile e san tmp (b, w)")
  show ?thesis
    by (cases r) (simp_all add: signCert_inv x)
qed

subsection \<open>Invocations of the signing request\<close>

lemma requestCert_inv:
  "(invocations (requestCert e name ci tmp (b, w)) = spawned w
      \<and> (\<forall>x. fst (requestCert e name ci tmp (b, w)) \<noteq> Return x))
   \<or> (\<exists>a p. invocations (requestCert e name ci tmp (b, w)) = spawned w @ [(a, None, p)])"
proof -
  let ?inner = "andThen (getConfFile e) (\<lambda>conf (b, w).
          onWorld (spawnAsync e ''openssl''
                     (csrArgs (options b) name (keyPath ci) (path_join e tmp ''req.csr'') conf)
                     None) (b, w))"
  have inv: "invocations (requestCert e name ci tmp (b, w)) = invocations (?inner (b, w))"
    unfolding requestCert_def by (rule inv_tryCatch_exit) (simp add: spawned_printS)
  obtain r b1 w1 where g: "getConfFile e (b, w) = (r, (b1, w1))"
    by (cases "getConfFile e (b, w)") auto
  with inv_getConfFile[of e b w] have w1: "spawned w1 = spawned w"
    by (simp add: invocations_def)
  show ?thesis
  proof (cases r)
    case (Return conf)
    then have "invocations (?inner (b, w)) =
       spawned w @ [(csrArgs (options b1) name (keyPath ci) (path_join e tmp ''req.csr'') conf, None,
          fst (engine e (length (spawned w))
                (csrArgs (options b1) name (keyPath ci) (path_join e tmp ''req.csr'') conf) None (fs w1)))]"
      by (simp add: inv_andThen_cases g inv_spawn w1)
    with inv show ?thesis by simp
  next
    case (Throw err)
    then have i: "?inner (b, w) = (Throw err, (b1, w1))" by (simp add: andThen_def g)
    have "fst (requestCert e name ci tmp (b, w)) \<noteq> Return x" for x
      by (simp add: requestCert_def tryCatch_def i processExit_def split: prod.splits)
    moreover have "invocations (?inner (b, w)) = spawned w" by (simp add: i inv_pair w1)
    ultimately show ?thesis using inv by simp
  next
    case (Exit c)
    then have i: "?inner (b, w) = (Exit c, (b1, w1))" by (simp add: andThen_def g)
    have "fst (requestCert e name ci tmp (b, w)) \<noteq> Return x" for x
      by (simp add: requestCert_def tryCatch_def i)
    moreover have "invocations (?inner (b, w)) = spawned w" by (simp add: i inv_pair w1)
    ultimately show ?thesis using inv by simp
  qed
qed

subsection \<open>Invocations of an issuance\<close>

lemma confirmOverwrites_spawned:
  "confirmOverwrites e paths w = (ok, w') \<Longrightarrow> spawned w' = spawned w"
proof (induction paths arbitrary: w)
  case Nil
  then show ?case by simp
next
  case (Cons path paths)
  show ?case
  proof (cases "fs w path \<noteq> None")
    case False
    with Cons show ?thesis by simp
  next
    case True
    obtain ok1 w1 where c: "confirm e (''Overwrite existing file '' @ path @ ''?'') False w = (ok1, w1)"
      by (cases "confirm e (''Overwrite existing file '' @ path @ ''?'') False w")
    then have w1: "spawned w1 = spawned w" by (auto simp: confirm_def Let_def print_def)
    show ?thesis
    proof (cases ok1)
      case False
      with Cons.prems True c w1 show ?thesis by (auto simp: print_def)
    next
      case ok: True
      with Cons.prems True c have "confirmOverwrites e paths w1 = (ok, w')" by simp
      from Cons.IH[OF this] w1 show ?thesis by simp
    qed
  qed
qed

lemma issue_normal:
  "(\<exists>X. (X = [] \<or> (\<exists>a p. X = [(a, None, p)]))
         \<and> (\<forall>i. invocations (issueSignedCert e name i hs (b, w)) = spawned w @ X))
   \<or> (\<exists>a p tmp b3 w3.
         spawned w3 = spawned w @ [(a, None, p)]
         \<and> (\<forall>i. invocations (issueSignedCert e name i hs (b, w)) =
                  invocations (signCert e i (subjAltName_of hs) tmp (path_join e (certDir b) name)
                                 (b3, w3))))"
proof -
  let ?pp = "path_join e (certDir b) name"
  let ?ci = "new_CertInfo (?pp @ ''.crt'') (?pp @ ''.key'')"
  let ?b1 = "case subjAltName_of hs of Some san \<Rightarrow> b
             | None \<Rightarrow> b\<lparr>newCAs := newCAs b @ [?pp @ ''.crt'']\<rparr>"
  let ?sign = "\<lambda>i tmp. andThen (signCert e i (subjAltName_of hs) tmp ?pp)
                          (\<lambda>_ s. (Return (Some ?ci), s))"
  obtain proceed w1 where c: "(if safeMode (options b)
              then confirmOverwrites e [?pp @ ''.key'', ?pp @ ''.crt''] w
              else (True, w)) = (proceed, w1)"
    by (cases "if safeMode (options b)
              then confirmOverwrites e [?pp @ ''.key'', ?pp @ ''.crt''] w
              else (True, w)")
  have w1: "spawned w1 = spawned w"
  proof (cases "safeMode (options b)")
    case True
    with c have "confirmOverwrites e [?pp @ ''.key'', ?pp @ ''.crt''] w = (proceed, w1)"
      by (simp del: confirmOverwrites.simps)
    then show ?thesis by (rule confirmOverwrites_spawned)
  next
    case False
    with c show ?thesis by simp
  qed
  have u: "issueSignedCert e name i hs (b, w) =
       (if \<not> proceed then (Return None, (b, w1))
        else andThen (getTempDir e) (\<lambda>tmp.
              andThen (requestCert e name ?ci tmp) (\<lambda>_. ?sign i tmp)) (?b1, w1))" for i
    by (simp only: issueSignedCert_unfold c prod.case)
  have sign_inv: "invocations (?sign i tmp s) = invocations (signCert e i (subjAltName_of hs) tmp ?pp s)"
    for i tmp s
    by (rule inv_andThen_frame) (simp add: inv_pair)
  show ?thesis
  proof (cases proceed)
    case False
    then have "invocations (issueSignedCert e name i hs (b, w)) = spawned w @ []" for i
      by (simp add: u inv_pair w1)
    then show ?thesis by blast
  next
    case True
    obtain r2 b2 w2 where g: "getTempDir e (?b1, w1) = (r2, (b2, w2))"
      by (cases "getTempDir e (?b1, w1)") auto
    with inv_getTempDir[of e ?b1 w1] have w2: "spawned w2 = spawned w"
      by (simp add: invocations_def w1)
    show ?thesis
    proof (cases r2)
      case (Throw err)
      then have "invocations (issueSignedCert e name i hs (b, w)) = spawned w @ []" for i
        by (simp add: u True andThen_def g inv_pair w2)
      then show ?thesis by blast
    next
      case (Exit k)
      then have "invocations (issueSignedCert e name i hs (b, w)) = spawned w @ []" for i
        by (simp add: u True andThen_def g inv_pair w2)
      then show ?thesis by blast
    next
      case (Return tmp)
      then have u2: "issueSignedCert e name i hs (b, w) =
          andThen (requestCert e name ?ci tmp) (\<lambda>_. ?sign i tmp) (b2, w2)" for i
        by (simp add: u True andThen_def g)
      obtain r3 b3 w3 where rq: "requestCert e name ?ci tmp (b2, w2) = (r3, (b3, w3))"
        by (cases "requestCert e name ?ci tmp (b2, w2)") auto
      from requestCert_inv[of e name ?ci tmp b2 w2] rq
      have alt: "(spawned w3 = spawned w \<and> (\<forall>x. r3 \<noteq> Return x))
                 \<or> (\<exists>a p. spawned w3 = spawned w @ [(a, None, p)])"
        by (simp add: invocations_def w2)
      show ?thesis
      proof (cases r3)
        case (Return x)
        with alt obtain a p where w3: "spawned w3 = spawned w @ [(a, None, p)]" by auto
        have step: "issueSignedCert e name i hs (b, w) = ?sign i tmp (b3, w3)" for i
          unfolding u2 using rq Return by (simp add: andThen_def)
        have "invocations (issueSignedCert e name i hs (b, w)) =
                invocations (signCert e i (subjAltName_of hs) tmp ?pp (b3, w3))" for i
          by (simp only: step sign_inv)
        with w3 show ?thesis by blast
      next
        case (Throw err)
        then have "invocations (issueSignedCert e name i hs (b, w)) = spawned w3" for i
          by (simp add: u2 andThen_def rq inv_pair)
        with alt show ?thesis by (metis append_Nil2)
      next
        case (Exit k)
        then have "invocations (issueSignedCert e name i hs (b, w)) = spawned w3" for i
          by (simp add: u2 andThen_def rq inv_pair)
        with alt show ?thesis by (metis append_Nil2)
      qed
    qed
  qed
qed

lemma issue_args:
  assumes "certPath i1 = certPath i2" "keyPath i1 = keyPath i2"
    "truthy (password i1) = truthy (password i2)"
  shows "map fst (invocations (issueSignedCert e name i1 hs (b, w)))
       = map fst (invocations (issueSignedCert e name i2 hs (b, w)))"
  using issue_normal[of e name hs b w] signCert_args[OF assms] by (elim disjE exE conjE) simp_all

lemma issue_inputs:
  "\<exists>X. invocations (issueSignedCert e name i hs (b, w)) = spawned w @ X
       \<and> map (fst \<circ> snd) X \<in> set [[], [None], [None, if truthy (password i) then password i else None]]"
proof -
  from issue_normal[of e name hs b w]
  consider (short) X where "X = [] \<or> (\<exists>a p. X = [(a, None, p)])"
      "\<forall>i. invocations (issueSignedCert e name i hs (b, w)) = spawned w @ X"
    | (long) a p tmp b3 w3 where "spawned w3 = spawned w @ [(a, None, p)]"
      "\<forall>i. invocations (issueSignedCert e name i hs (b, w)) =
                  invocations (signCert e i (subjAltName_of hs) tmp (path_join e (certDir b) name)
                                 (b3, w3))"
    by blast
  then show ?thesis
  proof cases
    case short
    then show ?thesis by (intro exI[of _ X]) auto
  next
    case long
    note w3 = long(1) and all = long(2)
  from signCert_inputs[of e i "subjAltName_of hs" tmp "path_join e (certDir b) name" b3 w3]
  obtain Y where Y: "invocations (signCert e i (subjAltName_of hs) tmp (path_join e (certDir b) name)
                                 (b3, w3)) = spawned w3 @ Y"
    "map (fst \<circ> snd) Y \<in> set [[], [if truthy (password i) then password i else None]]"
    by blast
    show ?thesis
      using all Y w3 by (intro exI[of _ "(a, None, p) # Y"]) auto
  qed
qed

subsection \<open>Invocations of the root creation\<close>

lemma wp_fields:
  "engine (withPassword e a h) = engine e"
  "operator (withPassword e a h) = operator e"
  "randomChar (withPassword e a h) = randomChar e"
  "tmpdir (withPassword e a h) = tmpdir e"
  "path_join (withPassword e a h) = path_join e"
  "rmSync (withPassword e a h) = rmSync e"
  "passwordPrompt (withPassword e a h) = (\<lambda>prompt retype. Inr a)"
  "randomBytesHex (withPassword e a h) = h"
  by (simp_all add: withPassword_def)

lemma wp_getTempDir: "getTempDir (withPassword e a h) = getTempDir e"
  unfolding getTempDir_def makeTempDir_def mkdtemp_def wp_fields by (rule refl)

lemma wp_getConfFile: "getConfFile (withPassword e a h) = getConfFile e"
  unfolding getConfFile_def wp_getTempDir wp_fields by (rule refl)

lemma wp_processExit: "processExit (withPassword e a h) c s = processExit e c s"
  unfolding processExit_def cleanUp_def wp_fields by (rule refl)

lemma wp_rootKeyPath: "rootKeyPath (withPassword e a h) = rootKeyPath e"
  unfolding rootKeyPath_def wp_getTempDir wp_fields by (rule refl)

lemma wp_rootSafeMode: "rootSafeMode (withPassword e a h) = rootSafeMode e"
  unfolding rootSafeMode_def confirm_def wp_processExit wp_fields by (rule refl)

lemma wp_selfSignRoot: "selfSignRoot (withPassword e a h) = selfSignRoot e"
  unfolding selfSignRoot_def spawnAsync_def wp_getConfFile wp_processExit wp_fields by (rule refl)

lemma wp_rootPassword:
  "rootPassword (withPassword e a h) (b, w) =
     (Return (if truthy (persistentRootCAKeyPath b) then a else h), (b, w))"
  by (simp add: rootPassword_def wp_fields)

lemma inv_rootKeyPath: "invocations (rootKeyPath e (b, w)) = spawned w"
proof (cases "truthy (persistentRootCAKeyPath b)")
  case True
  then show ?thesis by (simp add: rootKeyPath_def inv_pair)
next
  case False
  then show ?thesis
    using inv_andThen_frame[of "\<lambda>d s. (Return (path_join e d ''$certName.key''), s)" "getTempDir e" "(b, w)"]
    by (simp add: rootKeyPath_def inv_pair inv_getTempDir)
qed

lemma inv_rootSafeMode: "invocations (rootSafeMode e ci (b, w)) = spawned w"
proof -
  have c: "confirm e q a w = (ok, w') \<Longrightarrow> spawned w' = spawned w" for q a ok w'
    by (auto simp: confirm_def Let_def print_def)
  have p: "invocations (processExit e c (b, print x w')) = spawned w'" for x w' c
    by (simp add: inv_processExit print_def)
  show ?thesis
  proof (cases "safeMode (options b) \<and>
                length (filter (\<lambda>path. fs w path \<noteq> None) [keyPath ci, certPath ci]) > 0")
    case False
    then show ?thesis by (auto simp: rootSafeMode_def Let_def inv_pair)
  next
    case True
    let ?q = "''Files exist:'' @ [CHR 0x0A] @ ''  '' @
              join_with ([CHR 0x0A] @ ''  '')
                (filter (\<lambda>path. fs w path \<noteq> None) [keyPath ci, certPath ci]) @ [CHR 0x0A] @
              ''Overwrite existing files ?''"
    obtain ok w' where k: "confirm e ?q False w = (ok, w')" by (cases "confirm e ?q False w")
    from c[OF k] have w': "spawned w' = spawned w" .
    have "rootSafeMode e ci (b, w) =
            (if \<not> ok then processExit e 1 (b, print (Warn ''Aborting.'') w')
             else (Return (), (b, w')))"
      unfolding rootSafeMode_def Let_def prod.case using True k by (simp only: if_True prod.case)
    then show ?thesis by (cases ok) (simp_all add: p inv_pair w')
  qed
qed

lemma selfSignRoot_inv:
  "invocations (selfSignRoot e ci pw (b, w)) =
     (case getConfFile e (b, w) of
        (Return conf, s1) \<Rightarrow>
          spawned w @
            [(rootArgs (options (fst s1)) ci conf, Some pw,
              fst (engine e (length (spawned w)) (rootArgs (options (fst s1)) ci conf) (Some pw)
                     (fs (snd s1))))]
      | (Throw err, s1) \<Rightarrow> spawned w
      | (Exit c, s1) \<Rightarrow> spawned w)"
proof -
  obtain r b1 w1 where g: "getConfFile e (b, w) = (r, (b1, w1))"
    by (cases "getConfFile e (b, w)") auto
  with inv_getConfFile[of e b w] have w1: "spawned w1 = spawned w"
    by (simp add: invocations_def)
  let ?reg = "\<lambda>_ (b, w).
             (Return (),
              (b\<lparr>rootCAInfo := Some (ci\<lparr>password := Some pw\<rparr>),
                 newCAs := newCAs b @ [certPath ci]\<rparr>, w))"
  let ?inner = "andThen (getConfFile e) (\<lambda>conf (b, w).
        andThen (onWorld (spawnAsync e ''openssl'' (rootArgs (options b) ci conf) (Some pw))) ?reg (b, w))"
  have inv: "invocations (selfSignRoot e ci pw (b, w)) = invocations (?inner (b, w))"
    unfolding selfSignRoot_def by (rule inv_tryCatch_exit) (simp add: spawned_printS)
  have reg: "invocations (andThen m ?reg s) = invocations (m s)" for m s
    by (rule inv_andThen_frame) (simp add: inv_pair)
  show ?thesis
  proof (cases r)
    case (Return conf)
    with g have "?inner (b, w) =
        andThen (onWorld (spawnAsync e ''openssl'' (rootArgs (options b1) ci conf) (Some pw))) ?reg (b1, w1)"
      by (simp add: andThen_ReturnI)
    then have "invocations (?inner (b, w)) =
        invocations (onWorld (spawnAsync e ''openssl'' (rootArgs (options b1) ci conf) (Some pw)) (b1, w1))"
      by (simp only: reg)
    then show ?thesis
      unfolding inv using Return by (simp add: g inv_spawn w1)
  next
    case (Throw err)
    with g have "?inner (b, w) = (Throw err, (b1, w1))" by (simp add: andThen_ThrowI)
    then show ?thesis unfolding inv using Throw by (simp add: g inv_pair w1)
  next
    case (Exit c)
    with g have "?inner (b, w) = (Exit c, (b1, w1))" by (simp add: andThen_ExitI)
    then show ?thesis unfolding inv using Exit by (simp add: g inv_pair w1)
  qed
qed

lemma selfSignRoot_args:
  "map fst (invocations (selfSignRoot e ci pw (b, w)))
     = map fst (invocations (selfSignRoot e ci pw' (b, w)))"
proof -
  obtain r s1 where g: "getConfFile e (b, w) = (r, s1)" by (cases "getConfFile e (b, w)")
  show ?thesis by (cases r) (simp_all add: selfSignRoot_inv g)
qed

lemma selfSignRoot_inputs:
  "\<exists>X. invocations (selfSignRoot e ci pw (b, w)) = spawned w @ X
       \<and> map (fst \<circ> snd) X \<in> set [[], [Some pw]]"
proof -
  obtain r s1 where g: "getConfFile e (b, w) = (r, s1)" by (cases "getConfFile e (b, w)")
  show ?thesis by (cases r) (simp_all add: selfSignRoot_inv g)
qed

lemma root_normal:
  "(\<forall>a h. invocations (createRootCA (withPassword e a h) (b, w)) = spawned w)
   \<or> (\<exists>ci b1 w1. spawned w1 = spawned w
         \<and> (\<forall>a h. invocations (createRootCA (withPassword e a h) (b, w)) =
                invocations (selfSignRoot e ci (if truthy (persistentRootCAKeyPath b1) then a else h)
                               (b1, w1))))"
proof -
  let ?ci = "\<lambda>b pk. new_CertInfo
               (path_join e (certDir b)
                  (get_prop (root_distinguished_name (sharedConfig b)) ''commonName'' @ ''.crt'')) pk"
  have u: "createRootCA (withPassword e a h) =
       andThen (rootKeyPath e) (\<lambda>pk (b, w).
          andThen (rootSafeMode e (?ci b pk)) (\<lambda>_.
          andThen (rootPassword (withPassword e a h)) (\<lambda>pw.
          selfSignRoot e (?ci b pk) pw)) (b, w))" for a h
    unfolding createRootCA_def Let_def wp_rootKeyPath wp_rootSafeMode wp_selfSignRoot wp_fields
    by (rule refl)
  obtain r0 b0 w0 where k: "rootKeyPath e (b, w) = (r0, (b0, w0))"
    by (cases "rootKeyPath e (b, w)") auto
  with inv_rootKeyPath[of e b w] have w0: "spawned w0 = spawned w"
    by (simp add: invocations_def)
  show ?thesis
  proof (cases r0)
    case (Throw err)
    then have "invocations (createRootCA (withPassword e a h) (b, w)) = spawned w" for a h
      by (simp add: u andThen_def k inv_pair w0)
    then show ?thesis by blast
  next
    case (Exit c)
    then have "invocations (createRootCA (withPassword e a h) (b, w)) = spawned w" for a h
      by (simp add: u andThen_def k inv_pair w0)
    then show ?thesis by blast
  next
    case (Return pk)
    let ?rest = "\<lambda>a h. andThen (rootPassword (withPassword e a h)) (\<lambda>pw. selfSignRoot e (?ci b0 pk) pw)"
    have u1: "createRootCA (withPassword e a h) (b, w) =
        andThen (rootSafeMode e (?ci b0 pk)) (\<lambda>_. ?rest a h) (b0, w0)" for a h
      unfolding u using k Return by (simp add: andThen_def)
    obtain r1 b1 w1 where sm: "rootSafeMode e (?ci b0 pk) (b0, w0) = (r1, (b1, w1))"
      by (cases "rootSafeMode e (?ci b0 pk) (b0, w0)") auto
    with inv_rootSafeMode[of e "?ci b0 pk" b0 w0] have w1: "spawned w1 = spawned w"
      by (simp add: invocations_def w0)
    show ?thesis
    proof (cases r1)
      case (Throw err)
      then have "invocations (createRootCA (withPassword e a h) (b, w)) = spawned w" for a h
        unfolding u1 using sm by (simp add: andThen_def inv_pair w1)
      then show ?thesis by blast
    next
      case (Exit c)
      then have "invocations (createRootCA (withPassword e a h) (b, w)) = spawned w" for a h
        unfolding u1 using sm by (simp add: andThen_def inv_pair w1)
      then show ?thesis by blast
    next
      case (Return x)
      have "createRootCA (withPassword e a h) (b, w) =
          selfSignRoot e (?ci b0 pk) (if truthy (persistentRootCAKeyPath b1) then a else h) (b1, w1)"
        for a h
        unfolding u1 using sm Return by (simp add: andThen_def wp_rootPassword)
      with w1 show ?thesis by metis
    qed
  qed
qed

text \<open>
  C8. The password reaches the engine on its standard input and never in its
  arguments. For the root: whatever password the operator types and whatever random
  password is drawn, \<open>createRootCA\<close> passes the same argument lists to the engine, and
  the only text it writes to a standard input is that password. For a signed certificate:
  for any two non-empty issuer passwords \<open>issueSignedCert\<close> passes the same argument
  lists, the signing request gets no input, and the signing gets the password as input.
\<close>

theorem password_only_on_stdin:
  "map fst (invocations (createRootCA (withPassword e typed random) (b, w)))
     = map fst (invocations (createRootCA (withPassword e typed' random') (b, w)))
   \<and> (\<exists>X. invocations (createRootCA (withPassword e typed random) (b, w)) = spawned w @ X
          \<and> map (fst \<circ> snd) X \<in> set [[], [Some typed], [Some random]])
   \<and> (pw \<noteq> [] \<and> pw' \<noteq> [] \<longrightarrow>
        map fst (invocations (issueSignedCert e name (issuer\<lparr>password := Some pw\<rparr>) hs (b, w)))
          = map fst (invocations (issueSignedCert e name (issuer\<lparr>password := Some pw'\<rparr>) hs (b, w)))
        \<and> (\<exists>X. invocations (issueSignedCert e name (issuer\<lparr>password := Some pw\<rparr>) hs (b, w))
                   = spawned w @ X
               \<and> map (fst \<circ> snd) X \<in> set [[], [None], [None, Some pw]]))"
proof (intro conjI impI)
  from root_normal[of e b w]
  consider (none) "\<forall>a h. invocations (createRootCA (withPassword e a h) (b, w)) = spawned w"
    | (sign) ci b1 w1 where "spawned w1 = spawned w"
        "\<forall>a h. invocations (createRootCA (withPassword e a h) (b, w)) =
                invocations (selfSignRoot e ci (if truthy (persistentRootCAKeyPath b1) then a else h)
                               (b1, w1))"
    by blast
  note root = this
  show "map fst (invocations (createRootCA (withPassword e typed random) (b, w)))
     = map fst (invocations (createRootCA (withPassword e typed' random') (b, w)))"
  proof (cases rule: root)
    case none
    then show ?thesis by simp
  next
    case sign
    then show ?thesis by (simp add: selfSignRoot_args[of e ci _ b1 w1])
  qed
  show "\<exists>X. invocations (createRootCA (withPassword e typed random) (b, w)) = spawned w @ X
          \<and> map (fst \<circ> snd) X \<in> set [[], [Some typed], [Some random]]"
  proof (cases rule: root)
    case none
    then show ?thesis by simp
  next
    case sign
    from selfSignRoot_inputs[of e ci "if truthy (persistentRootCAKeyPath b1) then typed else random" b1 w1]
    obtain X where "invocations (selfSignRoot e ci
                      (if truthy (persistentRootCAKeyPath b1) then typed else random) (b1, w1))
                    = spawned w1 @ X"
      "map (fst \<circ> snd) X \<in> set [[], [Some (if truthy (persistentRootCAKeyPath b1) then typed else random)]]"
      by blast
    with sign show ?thesis by (intro exI[of _ X]) (auto split: if_splits)
  qed
next
  assume pws: "pw \<noteq> [] \<and> pw' \<noteq> []"
  show "map fst (invocations (issueSignedCert e name (issuer\<lparr>password := Some pw\<rparr>) hs (b, w)))
          = map fst (invocations (issueSignedCert e name (issuer\<lparr>password := Some pw'\<rparr>) hs (b, w)))"
    by (rule issue_args) (simp_all add: truthy_def pws)
  from issue_inputs[of e name "issuer\<lparr>password := Some pw\<rparr>" hs b w] pws
  show "\<exists>X. invocations (issueSignedCert e name (issuer\<lparr>password := Some pw\<rparr>) hs (b, w))
                   = spawned w @ X
               \<and> map (fst \<circ> snd) X \<in> set [[], [None], [None, Some pw]]"
    by (simp add: truthy_def)
qed

theorem password_only_on_stdin_witness:
  "''hunter2'' \<noteq> [] \<and> ''swordfish'' \<noteq> []
   \<and> map fst (invocations (issueSignedCert demoEnv ''a.test'' (demoRoot\<lparr>password := Some ''hunter2''\<rparr>)
                              (Arr [''a.test'']) (demoBuilder, emptyWorld)))
     = map fst (invocations (issueSignedCert demoEnv ''a.test'' (demoRoot\<lparr>password := Some ''swordfish''\<rparr>)
                              (Arr [''a.test'']) (demoBuilder, emptyWorld)))
   \<and> map (fst \<circ> snd)
         (invocations (issueSignedCert demoEnv ''a.test'' (demoRoot\<lparr>password := Some ''hunter2''\<rparr>)
                         (Arr [''a.test'']) (demoBuilder, emptyWorld)))
     = [None, Some ''hunter2'']"
proof -
  have ne: "''hunter2'' \<noteq> [] \<and> ''swordfish'' \<noteq> []" by simp
  have inputs: "map (fst \<circ> snd)
         (invocations (issueSignedCert demoEnv ''a.test'' (demoRoot\<lparr>password := Some ''hunter2''\<rparr>)
                         (Arr [''a.test'']) (demoBuilder, emptyWorld)))
     = [None, Some ''hunter2'']"
    by (simp add: invocations_def issue_defs demo_defs Let_def)
  from password_only_on_stdin[where e = demoEnv and name = "''a.test''" and issuer = demoRoot
         and hs = "Arr [''a.test'']" and b = demoBuilder and w = emptyWorld
         and pw = "''hunter2''" and pw' = "''swordfish''"] ne
  have "map fst (invocations (issueSignedCert demoEnv ''a.test'' (demoRoot\<lparr>password := Some ''hunter2''\<rparr>)
                              (Arr [''a.test'']) (demoBuilder, emptyWorld)))
     = map fst (invocations (issueSignedCert demoEnv ''a.test'' (demoRoot\<lparr>password := Some ''swordfish''\<rparr>)
                              (Arr [''a.test'']) (demoBuilder, emptyWorld)))"
    by blast
  with ne inputs show ?thesis by blast
qed

end
